theory Spec2Isabelle
  imports
    Main
    "HOL-Library.AList"
    "HOL-Library.Multiset"
    "HOL-Library.Char_ord"
    "HOL-Library.List_Lexorder"
    "HOL-Library.Product_Lexorder"
begin

section \<open>Data model of \<^verbatim>\<open>fetch_stats.py\<close>\<close>

text \<open>
  Calendar dates appear in the source as strings of the form \<^verbatim>\<open>YYYY-MM-DD\<close>. They are
  compared as strings (\<^verbatim>\<open>sorted(..., key=lambda x: x["date"])\<close>, \<^verbatim>\<open>next_date <= self.today\<close>)
  and moved by \<^verbatim>\<open>timedelta(days=1)\<close> after \<^verbatim>\<open>strptime\<close>. On well-formed four-digit-year
  dates the string order is the calendar order, so a date is modelled by its day number
  (Python's \<^verbatim>\<open>date.toordinal()\<close>): comparison is \<open>\<le>\<close> on \<open>int\<close>, one day later is \<open>+ 1\<close>.
  The date strings of a stored breakdown are taken to be such dates, as the keys of the
  analytics answers they were written from are.
\<close>

type_synonym date = int

text \<open>One entry of a breakdown: \<^verbatim>\<open>{"date", "views", "comments", "reactions"}\<close>.\<close>

record daily =
  date :: date
  views :: int
  comments :: int
  reactions :: int

text \<open>
  One value of the analytics response. Each of \<^verbatim>\<open>page_views\<close>, \<^verbatim>\<open>comments\<close>,
  \<^verbatim>\<open>reactions\<close> is an object that may be absent (\<open>None\<close>) and whose \<^verbatim>\<open>total\<close> may be
  absent (\<open>Some None\<close>).
\<close>

record raw_metrics =
  raw_page_views :: "int option option"
  raw_comments :: "int option option"
  raw_reactions :: "int option option"

text \<open>
  The analytics response is a Python dict from date to raw metrics, kept in insertion
  order: an association list. (A dict has no two equal keys; the functions below do not
  depend on it.)
\<close>

type_synonym analytics = "(date \<times> raw_metrics) list"

text \<open>What \<^verbatim>\<open>requests.get(...)\<close>, \<^verbatim>\<open>raise_for_status()\<close> and \<^verbatim>\<open>response.json()\<close> give.\<close>

datatype 'a http_result = RequestException | JSONDecodeError | Json 'a

type_synonym analytics_source = "nat \<Rightarrow> date \<Rightarrow> date \<Rightarrow> analytics http_result"

text \<open>An article of the published list, with \<^verbatim>\<open>published_at\<close> already cut at \<^verbatim>\<open>T\<close>.\<close>

record article =
  art_id :: nat
  art_slug :: string
  art_published_at :: date
  art_title :: string
  art_organization :: "string option"
  art_user :: "string option"

text \<open>
  The JSON document of one article file. Every key is read with \<^verbatim>\<open>.get\<close> somewhere,
  so every key may be absent.
\<close>

record article_doc =
  doc_title :: "string option"
  doc_views :: "int option"
  doc_comments :: "int option"
  doc_reactions :: "int option"
  doc_org_username :: "string option"
  doc_breakdown :: "daily list option"

text \<open>
  A file of \<^verbatim>\<open>./data/articles\<close> that the code reads without an exception leaving
  its handlers: of size 0, or one on which the guarded block raises \<^verbatim>\<open>JSONDecodeError\<close>
  or \<^verbatim>\<open>KeyError\<close> (text that is not JSON, or a breakdown entry without a date), or a
  parsed document: an object of the layout above. A path with no file is \<open>None\<close> of
  \<open>stored option\<close>.
\<close>

datatype stored = EmptyFile | Invalid | Parsed article_doc

text \<open>
  What is on disk at a path of \<^verbatim>\<open>./data/articles\<close>. The handlers at lines 184, 251
  and 306 catch \<^verbatim>\<open>(json.JSONDecodeError, KeyError)\<close> only. On bytes that are not UTF-8
  text \<^verbatim>\<open>json.load\<close> raises \<^verbatim>\<open>UnicodeDecodeError\<close>, and on JSON text whose value is
  not an object (a list, a string, a number, \<^verbatim>\<open>null\<close>) the first \<^verbatim>\<open>.get\<close> (lines 159,
  246 and 300) raises \<^verbatim>\<open>AttributeError\<close>: both leave the function. Every other file is
  \<open>Readable\<close>. (By the convention on dates, an object whose date strings are not calendar
  dates, on which \<^verbatim>\<open>strptime\<close> raises \<^verbatim>\<open>ValueError\<close>, is not among them.)
\<close>

datatype uncaught = UnicodeDecodeError | AttributeError

datatype disk_file = NotText | NotObject | Readable stored

text \<open>The fields of \<^verbatim>\<open>self\<close> that the pipeline reads.\<close>

record fetcher =
  today :: date
  from_second_last_day :: bool
  username :: "string option"

record account_doc =
  acc_articles :: nat
  acc_views :: int
  acc_comments :: int
  acc_reactions :: int
  acc_username :: "string option"
  acc_breakdown :: "daily list"

section \<open>Analytics source and its conversion\<close>

definition fetch_article_analytics ::
  "analytics_source \<Rightarrow> nat \<Rightarrow> date \<Rightarrow> date \<Rightarrow> analytics" where
  "fetch_article_analytics src article_id start_date end_date =
     (case src article_id start_date end_date of
        Json a \<Rightarrow> a
      | RequestException \<Rightarrow> []
      | JSONDecodeError \<Rightarrow> [])"

text \<open>\<^verbatim>\<open>data.get(key, {}).get("total", 0)\<close>\<close>

definition get_total :: "int option option \<Rightarrow> int" where
  "get_total sub = (case sub of None \<Rightarrow> 0 | Some t \<Rightarrow> (case t of None \<Rightarrow> 0 | Some n \<Rightarrow> n))"

definition to_daily :: "date \<Rightarrow> raw_metrics \<Rightarrow> daily" where
  "to_daily d data =
     \<lparr>date = d,
      views = get_total (raw_page_views data),
      comments = get_total (raw_comments data),
      reactions = get_total (raw_reactions data)\<rparr>"

definition process_analytics_data :: "analytics \<Rightarrow> daily list" where
  "process_analytics_data analytics =
     sort_key date (map (\<lambda>(d, data). to_daily d data) analytics)"

definition get_next_date :: "date \<Rightarrow> date" where
  "get_next_date date_str = date_str + 1"

section \<open>Planner and merge of \<^verbatim>\<open>process_article\<close>\<close>

text \<open>
  \<^verbatim>\<open>max(breakdown, key=lambda x: x["date"])["date"]\<close> on a non-empty list: the
  first entry is kept until a strictly later date is met.
\<close>

definition max_date :: "daily list \<Rightarrow> date" where
  "max_date breakdown =
     fold (\<lambda>item m. if m < date item then date item else m) (tl breakdown) (date (hd breakdown))"

datatype request = Fetch date date | NoFetch

definition doc_breakdown_or_empty :: "article_doc \<Rightarrow> daily list" where
  "doc_breakdown_or_empty data = (case doc_breakdown data of None \<Rightarrow> [] | Some b \<Rightarrow> b)"

text \<open>
  Lines 151 to 191: the request that is made (or none) and the value of
  \<^verbatim>\<open>existing_data["breakdown"]\<close> afterwards.
\<close>

definition plan_fetch :: "fetcher \<Rightarrow> article \<Rightarrow> stored option \<Rightarrow> request \<times> daily list" where
  "plan_fetch self article file =
     (case file of
        Some (Parsed existing_data) \<Rightarrow>
          (let breakdown = doc_breakdown_or_empty existing_data in
           if breakdown \<noteq> [] then
             (let last_date = max_date breakdown in
              if from_second_last_day self then
                (let second_last_date = last_date - 1;
                     kept = filter (\<lambda>item. date item \<noteq> last_date) breakdown;
                     next_date = second_last_date
                 in (if next_date \<le> today self then Fetch next_date (today self) else NoFetch,
                     kept))
              else
                (let next_date = get_next_date last_date
                 in (if next_date \<le> today self then Fetch next_date (today self) else NoFetch,
                     breakdown)))
           else (Fetch (art_published_at article) (today self), breakdown))
      | Some Invalid \<Rightarrow> (Fetch (art_published_at article) (today self), [])
      | Some EmptyFile \<Rightarrow> (Fetch (art_published_at article) (today self), [])
      | None \<Rightarrow> (Fetch (art_published_at article) (today self), []))"

definition perform :: "analytics_source \<Rightarrow> nat \<Rightarrow> request \<Rightarrow> analytics" where
  "perform src article_id request =
     (case request of
        Fetch start_date end_date \<Rightarrow> fetch_article_analytics src article_id start_date end_date
      | NoFetch \<Rightarrow> [])"

text \<open>
  \<^verbatim>\<open>unique_breakdown[item["date"]] = item\<close> for every item: a Python dict keeps the
  position of a key that is assigned again, which is \<open>AList.update\<close>.
\<close>

definition unique_breakdown :: "daily list \<Rightarrow> (date \<times> daily) list" where
  "unique_breakdown all_breakdown =
     fold (\<lambda>item d. AList.update (date item) item d) all_breakdown []"

definition final_breakdown :: "daily list \<Rightarrow> daily list \<Rightarrow> daily list" where
  "final_breakdown existing new_breakdown =
     sort_key date (map snd (unique_breakdown (existing @ new_breakdown)))"

definition article_org_username :: "article \<Rightarrow> string option" where
  "article_org_username article =
     (case art_organization article of Some s \<Rightarrow> Some s | None \<Rightarrow> art_user article)"

definition article_data :: "article \<Rightarrow> daily list \<Rightarrow> article_doc" where
  "article_data article final =
     \<lparr>doc_title = Some (art_title article),
      doc_views = Some (sum_list (map views final)),
      doc_comments = Some (sum_list (map comments final)),
      doc_reactions = Some (sum_list (map reactions final)),
      doc_org_username = article_org_username article,
      doc_breakdown = Some final\<rparr>"

text \<open>The document that \<^verbatim>\<open>process_article\<close> writes to the article's file.\<close>

definition process_article ::
  "analytics_source \<Rightarrow> fetcher \<Rightarrow> article \<Rightarrow> stored option \<Rightarrow> article_doc" where
  "process_article src self article file =
     (let (request, existing) = plan_fetch self article file;
          analytics = perform src (art_id article) request;
          new_breakdown = (if analytics \<noteq> [] then process_analytics_data analytics else [])
      in article_data article (final_breakdown existing new_breakdown))"

section \<open>The article files\<close>

text \<open>\<^verbatim>\<open>str(article_id)\<close> of a non-negative identifier.\<close>

definition digit_char :: "nat \<Rightarrow> char" where
  "digit_char n = ''0123456789'' ! n"

function show_nat :: "nat \<Rightarrow> string" where
  "show_nat n = (if n < 10 then [digit_char n] else show_nat (n div 10) @ [digit_char (n mod 10)])"
  by pat_completeness auto
termination
  by (relation "measure id") auto

text \<open>The stem of \<^verbatim>\<open>./data/articles/{article_id}-{slug}.json\<close>.\<close>

definition file_stem :: "article \<Rightarrow> string" where
  "file_stem article = show_nat (art_id article) @ ''-'' @ art_slug article"

text \<open>
  The directory \<^verbatim>\<open>./data/articles\<close>: stems with their files, in the order in which
  \<^verbatim>\<open>glob\<close> enumerates them.
\<close>

type_synonym articles_dir = "(string \<times> stored) list"

text \<open>One turn of the loop of \<^verbatim>\<open>run\<close>: the article's file is read, then written.\<close>

definition process_article_file ::
  "analytics_source \<Rightarrow> fetcher \<Rightarrow> article \<Rightarrow> articles_dir \<Rightarrow> articles_dir" where
  "process_article_file src self article dir =
     AList.update (file_stem article)
       (Parsed (process_article src self article (map_of dir (file_stem article)))) dir"

section \<open>Aggregator: \<^verbatim>\<open>update_account_stats\<close>\<close>

text \<open>\<^verbatim>\<open>data.get(key, 0)\<close>\<close>

definition get0 :: "int option \<Rightarrow> int" where
  "get0 v = (case v of None \<Rightarrow> 0 | Some n \<Rightarrow> n)"

text \<open>
  The scanning loop, on the state \<^verbatim>\<open>(total_views, total_comments, total_reactions,
  all_breakdowns)\<close>. A file of size 0 is not opened; one that does not decode is skipped.
\<close>

fun scan_file :: "stored \<Rightarrow> int \<times> int \<times> int \<times> daily list \<Rightarrow> int \<times> int \<times> int \<times> daily list" where
  "scan_file (Parsed data) (tv, tc, tr, bs) =
     (tv + get0 (doc_views data), tc + get0 (doc_comments data), tr + get0 (doc_reactions data),
      bs @ doc_breakdown_or_empty data)"
| "scan_file EmptyFile acc = acc"
| "scan_file Invalid acc = acc"

text \<open>One turn of the loop over \<^verbatim>\<open>all_breakdowns\<close> on the dict \<^verbatim>\<open>date_aggregates\<close>.\<close>

definition add_item :: "daily \<Rightarrow> (date \<times> daily) list \<Rightarrow> (date \<times> daily) list" where
  "add_item item aggregates =
     (let d = date item;
          present =
            (if map_of aggregates d = None
             then AList.update d \<lparr>date = d, views = 0, comments = 0, reactions = 0\<rparr> aggregates
             else aggregates)
      in AList.map_entry d
           (\<lambda>a. a\<lparr>views := views a + views item,
                  comments := comments a + comments item,
                  reactions := reactions a + reactions item\<rparr>) present)"

definition date_aggregates :: "daily list \<Rightarrow> (date \<times> daily) list" where
  "date_aggregates all_breakdowns = fold add_item all_breakdowns []"

definition combined_breakdown :: "daily list \<Rightarrow> daily list" where
  "combined_breakdown all_breakdowns = sort_key date (map snd (date_aggregates all_breakdowns))"

definition update_account_stats :: "fetcher \<Rightarrow> article list \<Rightarrow> stored list \<Rightarrow> account_doc" where
  "update_account_stats self articles files =
     (let (total_views, total_comments, total_reactions, all_breakdowns) =
            fold scan_file files (0, 0, 0, [])
      in \<lparr>acc_articles = length articles,
          acc_views = total_views,
          acc_comments = total_comments,
          acc_reactions = total_reactions,
          acc_username = username self,
          acc_breakdown = combined_breakdown all_breakdowns\<rparr>)"

section \<open>Ranker: \<^verbatim>\<open>create_top_articles\<close>\<close>

record article_stat =
  st_slug :: string
  st_title :: string
  st_views :: int
  st_reactions :: int
  st_org_username :: "string option"

record reaction_entry =
  re_slug :: string
  re_title :: string
  re_reactions :: int
  re_org_username :: "string option"

record views_entry =
  ve_slug :: string
  ve_title :: string
  ve_views :: int
  ve_org_username :: "string option"

record top_articles =
  by_reaction :: "reaction_entry list"
  by_views :: "views_entry list"

text \<open>\<^verbatim>\<open>s.split(c)\<close> and \<^verbatim>\<open>c.join(parts)\<close> for a one-character separator.\<close>

fun split_on :: "char \<Rightarrow> string \<Rightarrow> string list" where
  "split_on c [] = [[]]"
| "split_on c (x # xs) =
     (if x = c then [] # split_on c xs
      else (case split_on c xs of [] \<Rightarrow> [[x]] | w # ws \<Rightarrow> (x # w) # ws))"

fun join_with :: "char \<Rightarrow> string list \<Rightarrow> string" where
  "join_with c [] = []"
| "join_with c [w] = w"
| "join_with c (w # ws) = w @ c # join_with c ws"

text \<open>\<^verbatim>\<open>"-".join(filename.split("-")[1:])\<close>\<close>

definition slug_of_stem :: "string \<Rightarrow> string" where
  "slug_of_stem filename = join_with CHR ''-'' (tl (split_on CHR ''-'' filename))"

text \<open>
  The entry of \<^verbatim>\<open>article_stats\<close> that a file adds, if any. Python's \<^verbatim>\<open>str.title\<close>
  is the parameter \<open>title_case\<close>.
\<close>

fun stat_of_file :: "(string \<Rightarrow> string) \<Rightarrow> string \<times> stored \<Rightarrow> article_stat list" where
  "stat_of_file title_case (filename, Parsed data) =
     (let slug = slug_of_stem filename in
      [\<lparr>st_slug = slug,
        st_title =
          (case doc_title data of
             Some t \<Rightarrow> t
           | None \<Rightarrow> title_case (map (\<lambda>c. if c = CHR ''-'' then CHR '' '' else c) slug)),
        st_views = get0 (doc_views data),
        st_reactions = get0 (doc_reactions data),
        st_org_username = doc_org_username data\<rparr>])"
| "stat_of_file title_case (filename, EmptyFile) = []"
| "stat_of_file title_case (filename, Invalid) = []"

definition article_stats :: "(string \<Rightarrow> string) \<Rightarrow> articles_dir \<Rightarrow> article_stat list" where
  "article_stats title_case dir = concat (map (stat_of_file title_case) dir)"

definition to_reaction_entry :: "article_stat \<Rightarrow> reaction_entry" where
  "to_reaction_entry item =
     \<lparr>re_slug = st_slug item, re_title = st_title item, re_reactions = st_reactions item,
      re_org_username = st_org_username item\<rparr>"

definition to_views_entry :: "article_stat \<Rightarrow> views_entry" where
  "to_views_entry item =
     \<lparr>ve_slug = st_slug item, ve_title = st_title item, ve_views = st_views item,
      ve_org_username = st_org_username item\<rparr>"

text \<open>
  \<^verbatim>\<open>sorted\<close> is stable, as \<open>sort_key\<close> is; the key is a pair of an integer and a string,
  compared lexicographically, strings by their characters' codes.
\<close>

definition create_top_articles :: "(string \<Rightarrow> string) \<Rightarrow> articles_dir \<Rightarrow> top_articles" where
  "create_top_articles title_case dir =
     \<lparr>by_reaction =
        sort_key (\<lambda>x. (- re_reactions x, re_slug x))
          (map to_reaction_entry (article_stats title_case dir)),
      by_views =
        sort_key (\<lambda>x. (- ve_views x, ve_slug x))
          (map to_views_entry (article_stats title_case dir))\<rparr>"

section \<open>Credentials, the article list and \<^verbatim>\<open>run\<close>\<close>

text \<open>\<^verbatim>\<open>sys.exit(code)\<close> against a normal return.\<close>

datatype 'a outcome = Exit nat | Return 'a







text \<open>
  One page of \<^verbatim>\<open>/articles/me/published\<close>: the request raises, or the body is an
  object with an \<^verbatim>\<open>error\<close> key, or it is a list of articles.
\<close>

datatype page_result = PageRequestException | PageApiError | Page "article list"

type_synonym article_source = "nat \<Rightarrow> page_result"

text \<open>
  The \<^verbatim>\<open>while True\<close> loop of \<^verbatim>\<open>fetch_published_articles\<close>. It ends at the first
  failing or empty page; a source with no such page keeps it running, which is \<open>None\<close>.
\<close>

partial_function (option) fetch_pages ::
  "article_source \<Rightarrow> nat \<Rightarrow> article list \<Rightarrow> string option \<Rightarrow>
     (article list \<times> string option) outcome option" where
  "fetch_pages api page all_articles uname =
     (case api page of
        PageRequestException \<Rightarrow> Some (Exit 1)
      | PageApiError \<Rightarrow> Some (Exit 1)
      | Page articles \<Rightarrow>
          if articles = [] then Some (Return (all_articles, uname))
          else fetch_pages api (page + 1) (all_articles @ articles)
                 (if (uname = None \<or> uname = Some []) \<and> art_user (hd articles) \<noteq> None
                  then art_user (hd articles) else uname))"

definition fetch_published_articles ::
  "article_source \<Rightarrow> fetcher \<Rightarrow> (article list \<times> fetcher) outcome option" where
  "fetch_published_articles api self =
     (case fetch_pages api 1 [] (username self) of
        None \<Rightarrow> None
      | Some (Exit code) \<Rightarrow> Some (Exit code)
      | Some (Return (articles, uname)) \<Rightarrow> Some (Return (articles, self\<lparr>username := uname\<rparr>)))"

text \<open>
  The data directory with its files as read, and \<^verbatim>\<open>run\<close> on it. What \<^verbatim>\<open>run\<close> does
  with a file that cannot be read is in the section on such files below.
\<close>

record data_dir =
  articles_files :: articles_dir
  account_json :: "account_doc option"
  top_articles_json :: "top_articles option"

definition run ::
  "article_source \<Rightarrow> analytics_source \<Rightarrow> (string \<Rightarrow> string) \<Rightarrow> fetcher \<Rightarrow> data_dir \<Rightarrow>
     data_dir outcome option" where
  "run api src title_case self0 data =
     (case fetch_published_articles api self0 of
        None \<Rightarrow> None
      | Some (Exit code) \<Rightarrow> Some (Exit code)
      | Some (Return (articles, self)) \<Rightarrow>
          (let dir = fold (process_article_file src self) articles (articles_files data)
           in Some (Return
                \<lparr>articles_files = dir,
                 account_json = Some (update_account_stats self articles (map snd dir)),
                 top_articles_json = Some (create_top_articles title_case dir)\<rparr>)))"


section \<open>The run on files that may not be readable\<close>

text \<open>
  The functions above take the files as read. Here the three readers meet the files as
  they are on disk, and \<^verbatim>\<open>run\<close> has its handler \<^verbatim>\<open>except Exception\<close> (lines 347 to
  349), which ends the process with status 1.
\<close>

type_synonym disk_dir = "(string \<times> disk_file) list"

text \<open>Lines 151 to 159: the article's file is opened, loaded and asked for its breakdown.\<close>

definition read_existing :: "disk_file option \<Rightarrow> uncaught + stored option" where
  "read_existing file =
     (case file of
        None \<Rightarrow> Inr None
      | Some NotText \<Rightarrow> Inl UnicodeDecodeError
      | Some NotObject \<Rightarrow> Inl AttributeError
      | Some (Readable f) \<Rightarrow> Inr (Some f))"

text \<open>\<^verbatim>\<open>process_article\<close> on the directory: it raises, or the article's file is written.\<close>

definition process_article_on_disk ::
  "analytics_source \<Rightarrow> fetcher \<Rightarrow> article \<Rightarrow> disk_dir \<Rightarrow> uncaught + disk_dir" where
  "process_article_on_disk src self article dir =
     (case read_existing (map_of dir (file_stem article)) of
        Inl e \<Rightarrow> Inl e
      | Inr file \<Rightarrow>
          Inr (AList.update (file_stem article)
                 (Readable (Parsed (process_article src self article file))) dir))"

text \<open>The loop \<^verbatim>\<open>for article in articles\<close>; an exception ends it.\<close>

fun process_articles_on_disk ::
  "analytics_source \<Rightarrow> fetcher \<Rightarrow> article list \<Rightarrow> disk_dir \<Rightarrow> uncaught + disk_dir" where
  "process_articles_on_disk src self [] dir = Inr dir"
| "process_articles_on_disk src self (article # articles) dir =
     (case process_article_on_disk src self article dir of
        Inl e \<Rightarrow> Inl e
      | Inr dir' \<Rightarrow> process_articles_on_disk src self articles dir')"

text \<open>
  The scans of \<^verbatim>\<open>update_account_stats\<close> and \<^verbatim>\<open>create_top_articles\<close> load every file
  of the directory, in the order of enumeration; the first file that raises ends the scan
  before anything is written.
\<close>

fun read_dir :: "disk_dir \<Rightarrow> uncaught + articles_dir" where
  "read_dir [] = Inr []"
| "read_dir ((filename, NotText) # files) = Inl UnicodeDecodeError"
| "read_dir ((filename, NotObject) # files) = Inl AttributeError"
| "read_dir ((filename, Readable f) # files) =
     (case read_dir files of Inl e \<Rightarrow> Inl e | Inr dir \<Rightarrow> Inr ((filename, f) # dir))"

record disk_data =
  disk_articles :: disk_dir
  disk_account :: "account_doc option"
  disk_top_articles :: "top_articles option"

definition run_on_disk ::
  "article_source \<Rightarrow> analytics_source \<Rightarrow> (string \<Rightarrow> string) \<Rightarrow> fetcher \<Rightarrow> disk_data \<Rightarrow>
     disk_data outcome option" where
  "run_on_disk api src title_case self0 data =
     (case fetch_published_articles api self0 of
        None \<Rightarrow> None
      | Some (Exit code) \<Rightarrow> Some (Exit code)
      | Some (Return (articles, self)) \<Rightarrow>
          (case process_articles_on_disk src self articles (disk_articles data) of
             Inl e \<Rightarrow> Some (Exit 1)
           | Inr dir \<Rightarrow>
               (case read_dir dir of
                  Inl e \<Rightarrow> Some (Exit 1)
                | Inr files \<Rightarrow>
                    Some (Return
                      \<lparr>disk_articles = dir,
                       disk_account = Some (update_account_stats self articles (map snd files)),
                       disk_top_articles = Some (create_top_articles title_case files)\<rparr>))))"


definition on_disk :: "articles_dir \<Rightarrow> disk_dir" where
  "on_disk dir = map (\<lambda>(filename, f). (filename, Readable f)) dir"

section \<open>Specification-level view of the merge\<close>

text \<open>
  What the dict \<^verbatim>\<open>unique_breakdown\<close> holds for a date after the loop over
  \<^verbatim>\<open>all_breakdown\<close>: the last item of that date, if any.
\<close>

definition last_entry :: "daily list \<Rightarrow> date \<Rightarrow> daily option" where
  "last_entry items d =
     (let ys = filter (\<lambda>item. date item = d) items in if ys = [] then None else Some (last ys))"

text \<open>A date-keyed map emitted as its values in ascending order of date.\<close>

definition emit :: "(date \<Rightarrow> daily option) \<Rightarrow> daily list" where
  "emit m = map (\<lambda>d. the (m d)) (sorted_list_of_set (dom m))"

text \<open>
  The merge in the specification's words: a map from date to entry, seeded with every
  entry of the prior breakdown, then overwritten with every fetched entry.
\<close>

definition spec_map :: "daily list \<Rightarrow> analytics \<Rightarrow> date \<Rightarrow> daily option" where
  "spec_map prior fetched =
     fold (\<lambda>(d, data) m. m(d \<mapsto> to_daily d data)) fetched
       (fold (\<lambda>item m. m(date item \<mapsto> item)) prior Map.empty)"

definition spec_merge :: "daily list \<Rightarrow> analytics \<Rightarrow> daily list" where
  "spec_merge prior fetched = emit (spec_map prior fetched)"

section \<open>Specification-level view of the aggregation\<close>

text \<open>The breakdown that the scan of \<^verbatim>\<open>update_account_stats\<close> takes from a file.\<close>

fun stored_breakdown :: "stored \<Rightarrow> daily list" where
  "stored_breakdown (Parsed data) = doc_breakdown_or_empty data"
| "stored_breakdown EmptyFile = []"
| "stored_breakdown Invalid = []"

text \<open>The totals that the scan takes from a file.\<close>

fun stored_total :: "(article_doc \<Rightarrow> int option) \<Rightarrow> stored \<Rightarrow> int" where
  "stored_total field (Parsed data) = get0 (field data)"
| "stored_total field EmptyFile = 0"
| "stored_total field Invalid = 0"

text \<open>The sum of a field over the entries of one date.\<close>

definition day_total :: "(daily \<Rightarrow> int) \<Rightarrow> daily list \<Rightarrow> date \<Rightarrow> int" where
  "day_total field items d = sum_list (map field (filter (\<lambda>item. date item = d) items))"

text \<open>The entry of a date in the aggregate of a list of entries.\<close>

definition agg_entry :: "daily list \<Rightarrow> date \<Rightarrow> daily" where
  "agg_entry items d =
     \<lparr>date = d, views = day_total views items d, comments = day_total comments items d,
      reactions = day_total reactions items d\<rparr>"

text \<open>A file whose totals are the sums of its own breakdown; a skipped file counts as one.\<close>

definition stored_consistent :: "stored \<Rightarrow> bool" where
  "stored_consistent file =
     (stored_total doc_views file = sum_list (map views (stored_breakdown file))
      \<and> stored_total doc_comments file = sum_list (map comments (stored_breakdown file))
      \<and> stored_total doc_reactions file = sum_list (map reactions (stored_breakdown file)))"

text \<open>An account document whose totals are the sums of its breakdown.\<close>

definition account_consistent :: "account_doc \<Rightarrow> bool" where
  "account_consistent account =
     (acc_views account = sum_list (map views (acc_breakdown account))
      \<and> acc_comments account = sum_list (map comments (acc_breakdown account))
      \<and> acc_reactions account = sum_list (map reactions (acc_breakdown account)))"

section \<open>Scenarios\<close>

text \<open>
  The specification's article B: a stored breakdown of 2024-01-01 (10 views) and
  2024-01-02 (5 views). The two dates are the day numbers 738886 and 738887.
\<close>

definition day1 :: date where
  "day1 = 738886"

definition day2 :: date where
  "day2 = 738887"

definition article_B :: article where
  "article_B =
     \<lparr>art_id = 2, art_slug = ''article-b'', art_published_at = day1, art_title = ''B'',
      art_organization = None, art_user = Some ''me''\<rparr>"

definition breakdown_B :: "daily list" where
  "breakdown_B =
     [\<lparr>date = day1, views = 10, comments = 0, reactions = 0\<rparr>,
      \<lparr>date = day2, views = 5, comments = 0, reactions = 0\<rparr>]"

definition history_B :: article_doc where
  "history_B =
     \<lparr>doc_title = Some ''B'', doc_views = Some 15, doc_comments = Some 0, doc_reactions = Some 0,
      doc_org_username = Some ''me'', doc_breakdown = Some breakdown_B\<rparr>"

text \<open>An analytics source whose every request raises.\<close>

definition failing_source :: analytics_source where
  "failing_source = (\<lambda>article_id start_date end_date. RequestException)"

text \<open>
  An analytics source that holds 8 views for 2024-01-02 and 3 views for 2024-01-03 and
  answers with the days of the requested range.
\<close>

definition source_B :: analytics_source where
  "source_B article_id start_date end_date =
     Json (filter (\<lambda>(d, data). start_date \<le> d \<and> d \<le> end_date)
       [(day2, \<lparr>raw_page_views = Some (Some 8), raw_comments = None, raw_reactions = None\<rparr>),
        (day2 + 1, \<lparr>raw_page_views = Some (Some 3), raw_comments = None, raw_reactions = None\<rparr>)])"

text \<open>The fetcher as its constructor leaves it.\<close>

definition fetcher_on :: "date \<Rightarrow> bool \<Rightarrow> fetcher" where
  "fetcher_on now refresh = \<lparr>today = now, from_second_last_day = refresh, username = None\<rparr>"

text \<open>A data directory in which the file of article B does not decode.\<close>

definition articles_dir_B :: articles_dir where
  "articles_dir_B = [(''2-article-b'', Invalid)]"

definition data_dir_B :: data_dir where
  "data_dir_B = \<lparr>articles_files = articles_dir_B, account_json = None, top_articles_json = None\<rparr>"




text \<open>
  Two article lists: one page with article B and then an empty page; one page with
  article B and then an error answer.
\<close>

definition listing_B :: article_source where
  "listing_B page = (if page = 1 then Page [article_B] else Page [])"


text \<open>Two article files of one slug: identifiers 1 and 2, equal views and reactions.\<close>

definition same_slug_dir :: articles_dir where
  "same_slug_dir =
     [(''1-post'', Parsed \<lparr>doc_title = Some ''First'', doc_views = Some 5, doc_comments = Some 0,
         doc_reactions = Some 1, doc_org_username = None, doc_breakdown = Some []\<rparr>),
      (''2-post'', Parsed \<lparr>doc_title = Some ''Second'', doc_views = Some 5, doc_comments = Some 0,
         doc_reactions = Some 1, doc_org_username = None, doc_breakdown = Some []\<rparr>)]"

text \<open>The same two files under two slugs.\<close>

definition two_slug_dir :: articles_dir where
  "two_slug_dir =
     [(''1-alpha'', Parsed \<lparr>doc_title = Some ''First'', doc_views = Some 5, doc_comments = Some 0,
         doc_reactions = Some 1, doc_org_username = None, doc_breakdown = Some []\<rparr>),
      (''2-beta'', Parsed \<lparr>doc_title = Some ''Second'', doc_views = Some 5, doc_comments = Some 0,
         doc_reactions = Some 1, doc_org_username = None, doc_breakdown = Some []\<rparr>)]"

section \<open>Maps emitted in date order\<close>

lemma map_key_sort_key: "map f (sort_key f xs) = sort (map f xs)"
proof (induction xs)
  case Nil
  show ?case by simp
next
  case (Cons a xs)
  have ins: "map f (insort_key f a ys) = insort (f a) (map f ys)" for ys
    by (induction ys) simp_all
  show ?case by (simp add: ins Cons.IH)
qed

lemma sort_values_emit:
  assumes dist: "distinct (map fst al)"
    and keyed: "\<And>k v. (k, v) \<in> set al \<Longrightarrow> date v = k"
  shows "sort_key date (map snd al) = emit (map_of al)"
proof -
  define L where "L = sort_key date (map snd al)"
  have "map date (map snd al) = map fst al"
    using keyed by (auto simp: comp_def)
  then have "map date L = sort (map fst al)"
    by (simp only: L_def map_key_sort_key)
  also have "\<dots> = sorted_list_of_set (set (map fst al))"
    using dist sorted_list_of_set_sort_remdups [of "map fst al"]
    by (simp only: distinct_remdups_id)
  also have "set (map fst al) = dom (map_of al)"
    by (simp add: dom_map_of_conv_image_fst)
  finally have keys: "map date L = sorted_list_of_set (dom (map_of al))" .
  have elems: "the (map_of al (date x)) = x" if "x \<in> set L" for x
  proof -
    from that obtain k where "(k, x) \<in> set al" by (auto simp: L_def)
    then show ?thesis using dist keyed by fastforce
  qed
  have "L = map (\<lambda>x. the (map_of al (date x))) L"
    using elems by (simp add: map_idI)
  also have "\<dots> = map (\<lambda>d. the (map_of al d)) (map date L)"
    by (simp add: comp_def)
  also have "\<dots> = emit (map_of al)"
    by (simp only: keys emit_def)
  finally show ?thesis
    by (simp only: L_def)
qed

lemma dates_emit:
  assumes "finite (dom m)" and "\<And>d v. m d = Some v \<Longrightarrow> date v = d"
  shows "map date (emit m) = sorted_list_of_set (dom m)"
  using assms by (auto simp: emit_def intro!: map_idI)

lemma set_emit: "finite (dom m) \<Longrightarrow> set (emit m) = ran m"
  by (auto simp: emit_def ran_def image_iff) force

section \<open>The merge as a map\<close>

lemma last_entry_Nil [simp]: "last_entry [] = Map.empty"
  by (rule ext) (simp add: last_entry_def)

lemma last_entry_snoc:
  "last_entry (xs @ [x]) = (last_entry xs)(date x \<mapsto> x)"
  by (rule ext) (simp add: last_entry_def)

lemma last_entry_append: "last_entry (xs @ ys) = last_entry xs ++ last_entry ys"
proof (induction ys rule: rev_induct)
  case Nil
  show ?case by simp
next
  case (snoc y ys)
  have "last_entry (xs @ ys @ [y]) = last_entry ((xs @ ys) @ [y])"
    by simp
  also have "\<dots> = (last_entry (xs @ ys))(date y \<mapsto> y)"
    by (rule last_entry_snoc)
  also have "\<dots> = (last_entry xs ++ last_entry ys)(date y \<mapsto> y)"
    by (simp only: snoc.IH)
  also have "\<dots> = last_entry xs ++ (last_entry ys)(date y \<mapsto> y)"
    by (rule map_add_upd [symmetric])
  also have "\<dots> = last_entry xs ++ last_entry (ys @ [y])"
    by (simp only: last_entry_snoc)
  finally show ?case .
qed

lemma last_entry_date: "last_entry xs d = Some v \<Longrightarrow> date v = d"
proof (induction xs rule: rev_induct)
  case Nil
  then show ?case by simp
next
  case (snoc x xs)
  then show ?case by (auto simp: last_entry_snoc split: if_splits)
qed

lemma last_entry_in_set: "last_entry xs d = Some v \<Longrightarrow> v \<in> set xs"
  by (auto simp: last_entry_def Let_def split: if_splits dest: last_in_set)

lemma dom_last_entry: "dom (last_entry xs) = date ` set xs"
  by (auto simp: last_entry_def Let_def dom_def filter_empty_conv)

lemma finite_dom_last_entry: "finite (dom (last_entry xs))"
  by (simp add: dom_last_entry)

lemma last_entry_sort_key: "last_entry (sort_key date xs) = last_entry xs"
  by (rule ext) (simp add: last_entry_def sort_key_stable)

lemma unique_breakdown_snoc:
  "unique_breakdown (xs @ [x]) = AList.update (date x) x (unique_breakdown xs)"
  by (simp add: unique_breakdown_def)

lemma map_of_unique_breakdown: "map_of (unique_breakdown xs) = last_entry xs"
proof (induction xs rule: rev_induct)
  case Nil
  show ?case by (simp add: unique_breakdown_def)
next
  case (snoc x xs)
  then show ?case by (simp add: unique_breakdown_snoc update_conv' last_entry_snoc)
qed

lemma distinct_unique_breakdown: "distinct (map fst (unique_breakdown xs))"
proof (induction xs rule: rev_induct)
  case Nil
  show ?case by (simp add: unique_breakdown_def)
next
  case (snoc x xs)
  then show ?case by (simp add: unique_breakdown_snoc distinct_update)
qed

lemma unique_breakdown_entry:
  assumes "(k, v) \<in> set (unique_breakdown xs)"
  shows "date v = k"
proof -
  have "last_entry xs k = Some v"
    using assms distinct_unique_breakdown [of xs] map_of_unique_breakdown [of xs]
    by (metis map_of_eq_Some_iff)
  then show ?thesis by (rule last_entry_date)
qed

lemma final_breakdown_emit:
  "final_breakdown existing new_breakdown = emit (last_entry (existing @ new_breakdown))"
proof -
  have "sort_key date (map snd (unique_breakdown xs)) = emit (map_of (unique_breakdown xs))" for xs
    by (rule sort_values_emit) (simp_all add: distinct_unique_breakdown unique_breakdown_entry)
  then show ?thesis
    by (simp only: final_breakdown_def map_of_unique_breakdown)
qed

lemma last_entry_emit:
  assumes "finite (dom m)" and "\<And>d v. m d = Some v \<Longrightarrow> date v = d"
  shows "last_entry (emit m) = m"
proof (rule ext)
  fix d
  have md: "map date (emit m) = sorted_list_of_set (dom m)"
    using assms by (rule dates_emit)
  show "last_entry (emit m) d = m d"
  proof (cases "m d")
    case None
    then have "d \<notin> date ` set (emit m)"
      using md assms(1) by (metis domIff list.set_map set_sorted_list_of_set)
    then have "last_entry (emit m) d = None"
      using dom_last_entry [of "emit m"] by blast
    then show ?thesis using None by simp
  next
    case (Some v)
    then have "d \<in> dom (last_entry (emit m))"
      using md assms(1) dom_last_entry [of "emit m"]
      by (metis domI list.set_map set_sorted_list_of_set)
    then obtain w where w: "last_entry (emit m) d = Some w" by blast
    then have "w \<in> set (emit m)"
      by (rule last_entry_in_set)
    then obtain e where "w = the (m e)" "e \<in> dom m"
      using assms(1) by (auto simp: emit_def)
    moreover have "date w = d" using w by (rule last_entry_date)
    ultimately have "w = v" using Some assms(2) by fastforce
    then show ?thesis using w Some by simp
  qed
qed

lemma final_breakdown_idem:
  "final_breakdown (final_breakdown prior new) new = final_breakdown prior new"
proof -
  let ?M = "last_entry (prior @ new)"
  have "last_entry (emit ?M) = ?M"
    by (rule last_entry_emit) (simp_all add: finite_dom_last_entry last_entry_date)
  moreover have "?M ++ last_entry new = ?M"
    by (rule ext) (simp add: last_entry_append map_add_def split: option.splits)
  ultimately have "last_entry (emit ?M @ new) = ?M"
    by (simp only: last_entry_append [of "emit ?M" new])
  then show ?thesis by (simp add: final_breakdown_emit)
qed

lemma dates_final_breakdown:
  "map date (final_breakdown existing new_breakdown) =
     sorted_list_of_set (date ` set (existing @ new_breakdown))"
proof -
  have "map date (emit (last_entry xs)) = sorted_list_of_set (dom (last_entry xs))" for xs
    by (rule dates_emit) (simp_all add: finite_dom_last_entry last_entry_date)
  then show ?thesis
    by (simp only: final_breakdown_emit dom_last_entry)
qed

lemma sorted_final_breakdown: "sorted (map date (final_breakdown existing new_breakdown))"
  by (simp only: dates_final_breakdown sorted_sorted_list_of_set)

lemma distinct_final_breakdown: "distinct (map date (final_breakdown existing new_breakdown))"
  by (simp only: dates_final_breakdown distinct_sorted_list_of_set)

section \<open>Merge idempotence\<close>

text \<open>
  Claim C1. For every prior breakdown and every fetched mapping of date to metrics,
  merging the fetched data into the result of the first merge gives the breakdown of the
  first merge again: it has no two entries of one date, and the document built from it
  (the breakdown with its recomputed views, comments and reactions totals) is the document
  of the first merge.
\<close>

theorem merge_idempotent:
  "final_breakdown (final_breakdown prior (process_analytics_data fetched))
       (process_analytics_data fetched)
     = final_breakdown prior (process_analytics_data fetched)
   \<and> distinct (map date (final_breakdown (final_breakdown prior (process_analytics_data fetched))
       (process_analytics_data fetched)))
   \<and> article_data article (final_breakdown (final_breakdown prior (process_analytics_data fetched))
       (process_analytics_data fetched))
     = article_data article (final_breakdown prior (process_analytics_data fetched))"
  by (simp only: final_breakdown_idem distinct_final_breakdown simp_thms)

section \<open>Merge semantics\<close>

lemma fold_seed_last_entry:
  "fold (\<lambda>item m. m(date item \<mapsto> item)) xs m0 = m0 ++ last_entry xs"
proof (induction xs rule: rev_induct)
  case Nil
  show ?case by simp
next
  case (snoc x xs)
  have "fold (\<lambda>item m. m(date item \<mapsto> item)) (xs @ [x]) m0
          = (fold (\<lambda>item m. m(date item \<mapsto> item)) xs m0)(date x \<mapsto> x)"
    by (simp only: fold_append fold_Cons fold_Nil comp_apply id_apply)
  also have "\<dots> = (m0 ++ last_entry xs)(date x \<mapsto> x)"
    by (simp only: snoc.IH)
  also have "\<dots> = m0 ++ (last_entry xs)(date x \<mapsto> x)"
    by (rule map_add_upd [symmetric])
  finally show ?case
    by (simp only: last_entry_snoc)
qed

lemma date_to_daily [simp]: "date (to_daily d data) = d"
  by (simp add: to_daily_def)

lemma fold_overwrite_last_entry:
  "fold (\<lambda>(d, data) m. m(d \<mapsto> to_daily d data)) fetched m0
     = m0 ++ last_entry (map (\<lambda>(d, data). to_daily d data) fetched)"
proof -
  have "(\<lambda>(d, data) m. m(d \<mapsto> to_daily d data))
          = (\<lambda>item m. m(date item \<mapsto> item)) \<circ> (\<lambda>(d, data). to_daily d data)"
    by (auto simp: fun_eq_iff)
  then show ?thesis
    by (simp only: fold_map [symmetric] fold_seed_last_entry)
qed

lemma spec_map_last_entry:
  "spec_map prior fetched = last_entry (prior @ process_analytics_data fetched)"
  by (simp add: spec_map_def fold_overwrite_last_entry fold_seed_last_entry
      last_entry_append process_analytics_data_def last_entry_sort_key)

lemma last_entry_distinct:
  "distinct (map date xs) \<Longrightarrow> v \<in> set xs \<Longrightarrow> last_entry xs (date v) = Some v"
proof (induction xs rule: rev_induct)
  case Nil
  then show ?case by simp
next
  case (snoc x xs)
  then show ?case by (auto simp: last_entry_snoc image_iff)
qed

lemma spec_map_fetched:
  assumes "distinct (map fst fetched)" and "(d, data) \<in> set fetched"
  shows "spec_map prior fetched d = Some (to_daily d data)"
proof -
  let ?new = "map (\<lambda>(d, data). to_daily d data) fetched"
  have "map date ?new = map fst fetched"
    by (auto simp: comp_def)
  then have "distinct (map date ?new)"
    using assms(1) by (simp only:)
  moreover have "to_daily d data \<in> set ?new"
    using assms(2) by force
  ultimately have "last_entry ?new (date (to_daily d data)) = Some (to_daily d data)"
    by (rule last_entry_distinct)
  then have "last_entry ?new d = Some (to_daily d data)"
    by (simp only: date_to_daily)
  then have "(last_entry prior ++ last_entry ?new) d = Some (to_daily d data)"
    by (rule map_add_find_right)
  then show ?thesis
    by (simp only: spec_map_def fold_overwrite_last_entry fold_seed_last_entry empty_map_add)
qed

lemma set_final_breakdown:
  "set (final_breakdown existing new_breakdown) = ran (last_entry (existing @ new_breakdown))"
  by (simp only: final_breakdown_emit set_emit finite_dom_last_entry)

text \<open>
  Claim C3. For every prior breakdown and every fetched mapping, the merge of the code is
  the list of values, in ascending order of date, of the map seeded with the prior entries
  and then overwritten by the fetched entries; it is sorted by date and has at most one
  entry per date; and every entry of a fetched mapping (a dict: no key twice) is in it.
\<close>

theorem merge_semantics:
  "final_breakdown prior (process_analytics_data fetched) = spec_merge prior fetched
   \<and> sorted (map date (final_breakdown prior (process_analytics_data fetched)))
   \<and> distinct (map date (final_breakdown prior (process_analytics_data fetched)))
   \<and> (distinct (map fst fetched) \<longrightarrow>
        (\<forall>(d, data) \<in> set fetched.
           to_daily d data \<in> set (final_breakdown prior (process_analytics_data fetched))))"
proof -
  have "to_daily d data \<in> set (final_breakdown prior (process_analytics_data fetched))"
    if "distinct (map fst fetched)" and "(d, data) \<in> set fetched" for d data
    using spec_map_fetched [OF that, of prior]
    by (simp only: set_final_breakdown spec_map_last_entry [symmetric]) (rule ranI)
  then show ?thesis
    by (auto simp only: spec_merge_def spec_map_last_entry final_breakdown_emit [symmetric]
        sorted_final_breakdown distinct_final_breakdown)
qed

theorem merge_semantics_witness:
  "final_breakdown [\<lparr>date = 1, views = 10, comments = 0, reactions = 0\<rparr>,
                    \<lparr>date = 2, views = 5, comments = 0, reactions = 0\<rparr>]
     (process_analytics_data
        [(2, \<lparr>raw_page_views = Some (Some 8), raw_comments = None, raw_reactions = Some None\<rparr>)])
   = [\<lparr>date = 1, views = 10, comments = 0, reactions = 0\<rparr>,
      \<lparr>date = 2, views = 8, comments = 0, reactions = 0\<rparr>]
   \<and> distinct (map fst
        [(2 :: date, \<lparr>raw_page_views = Some (Some 8), raw_comments = None, raw_reactions = Some None\<rparr>)])
   \<and> to_daily 2 \<lparr>raw_page_views = Some (Some 8), raw_comments = None, raw_reactions = Some None\<rparr>
       \<in> set (final_breakdown [\<lparr>date = 1, views = 10, comments = 0, reactions = 0\<rparr>,
                    \<lparr>date = 2, views = 5, comments = 0, reactions = 0\<rparr>]
     (process_analytics_data
        [(2, \<lparr>raw_page_views = Some (Some 8), raw_comments = None, raw_reactions = Some None\<rparr>)]))"
proof -
  let ?prior = "[\<lparr>date = 1, views = 10, comments = 0, reactions = 0\<rparr>,
                 \<lparr>date = 2, views = 5, comments = 0, reactions = 0\<rparr>]"
  let ?raw = "\<lparr>raw_page_views = Some (Some 8), raw_comments = None, raw_reactions = Some None\<rparr>"
  have val: "final_breakdown ?prior (process_analytics_data [(2, ?raw)])
      = [\<lparr>date = 1, views = 10, comments = 0, reactions = 0\<rparr>,
         \<lparr>date = 2, views = 8, comments = 0, reactions = 0\<rparr>]"
    by (simp add: final_breakdown_def unique_breakdown_def process_analytics_data_def
        to_daily_def get_total_def)
  have keys: "distinct (map fst [(2 :: date, ?raw)])"
    by simp
  have "\<forall>(d, data) \<in> set [(2, ?raw)].
          to_daily d data \<in> set (final_breakdown ?prior (process_analytics_data [(2, ?raw)]))"
    using merge_semantics [of ?prior "[(2, ?raw)]"] keys by blast
  then have "to_daily 2 ?raw \<in> set (final_breakdown ?prior (process_analytics_data [(2, ?raw)]))"
    by simp
  with val keys show ?thesis by blast
qed

section \<open>Planner\<close>

lemma fold_max_date:
  "fold (\<lambda>item m. if m < date item then date item else m) xs m0 = Max (insert m0 (date ` set xs))"
proof (induction xs arbitrary: m0)
  case Nil
  show ?case by simp
next
  case (Cons x xs)
  have "Max (insert (max m0 (date x)) (date ` set xs)) = Max (insert m0 (insert (date x) (date ` set xs)))"
    by (cases "xs = []") (simp_all add: max.assoc max.commute max.left_commute)
  moreover have "(if m0 < date x then date x else m0) = max m0 (date x)"
    by (simp add: max_def)
  ultimately show ?case
    by (simp only: fold_Cons comp_apply Cons.IH list.set image_insert)
qed

lemma max_date_Max: "breakdown \<noteq> [] \<Longrightarrow> max_date breakdown = Max (date ` set breakdown)"
  by (cases breakdown) (simp_all add: max_date_def fold_max_date)

lemma process_article_unfold:
  "process_article src self article file =
     article_data article
       (final_breakdown (snd (plan_fetch self article file))
          (if perform src (art_id article) (fst (plan_fetch self article file)) \<noteq> []
           then process_analytics_data
                  (perform src (art_id article) (fst (plan_fetch self article file)))
           else []))"
  by (simp add: process_article_def Let_def split: prod.splits)

lemma process_analytics_data_Nil [simp]: "process_analytics_data [] = []"
  by (simp add: process_analytics_data_def)

lemma process_article_answer:
  "process_article src self article file =
     article_data article
       (final_breakdown (snd (plan_fetch self article file))
          (case fst (plan_fetch self article file) of
             NoFetch \<Rightarrow> []
           | Fetch start_date end_date \<Rightarrow>
               (case src (art_id article) start_date end_date of
                  Json fetched \<Rightarrow> process_analytics_data fetched
                | RequestException \<Rightarrow> []
                | JSONDecodeError \<Rightarrow> [])))"
  by (simp add: process_article_unfold perform_def fetch_article_analytics_def
      split: request.splits http_result.splits)

text \<open>
  Claim C2. Let an article's stored breakdown be non-empty, with last (maximum) date \<open>D\<close>,
  and let today be \<open>T\<close>. If \<open>T > D\<close>, normal mode plans the range from \<open>D + 1\<close> to \<open>T\<close>
  and keeps the breakdown, and refresh mode plans the range from \<open>D - 1\<close> to \<open>T\<close> and
  keeps the breakdown without its entries of date \<open>D\<close>. In both modes the document written
  is the merge of the kept breakdown with what the analytics source answers for that
  range, and it depends on the source through that one answer only. If \<open>D + 1 > T\<close>, normal
  mode makes no request: the document is written from the stored breakdown alone, whatever
  the source is.
\<close>

theorem planner_correct:
  assumes "doc_breakdown_or_empty data = breakdown" and "breakdown \<noteq> []"
    and "D = Max (date ` set breakdown)" and "T = today self"
  shows "(D < T \<and> \<not> from_second_last_day self \<longrightarrow>
            plan_fetch self article (Some (Parsed data)) = (Fetch (D + 1) T, breakdown))
       \<and> (D < T \<and> from_second_last_day self \<longrightarrow>
            plan_fetch self article (Some (Parsed data))
              = (Fetch (D - 1) T, filter (\<lambda>item. date item \<noteq> D) breakdown))
       \<and> (T < D + 1 \<and> \<not> from_second_last_day self \<longrightarrow>
            plan_fetch self article (Some (Parsed data)) = (NoFetch, breakdown)
            \<and> perform src (art_id article) NoFetch = []
            \<and> process_article src self article (Some (Parsed data))
                = article_data article (final_breakdown breakdown []))
       \<and> (D < T \<and> \<not> from_second_last_day self
            \<and> src (art_id article) (D + 1) T = Json fetched \<longrightarrow>
            process_article src self article (Some (Parsed data))
              = article_data article (final_breakdown breakdown (process_analytics_data fetched)))
       \<and> (D < T \<and> from_second_last_day self
            \<and> src (art_id article) (D - 1) T = Json fetched \<longrightarrow>
            process_article src self article (Some (Parsed data))
              = article_data article
                  (final_breakdown (filter (\<lambda>item. date item \<noteq> D) breakdown)
                     (process_analytics_data fetched)))
       \<and> (D < T \<and> \<not> from_second_last_day self
            \<and> src (art_id article) (D + 1) T = src' (art_id article) (D + 1) T \<longrightarrow>
            process_article src self article (Some (Parsed data))
              = process_article src' self article (Some (Parsed data)))
       \<and> (D < T \<and> from_second_last_day self
            \<and> src (art_id article) (D - 1) T = src' (art_id article) (D - 1) T \<longrightarrow>
            process_article src self article (Some (Parsed data))
              = process_article src' self article (Some (Parsed data)))
       \<and> (T < D + 1 \<and> \<not> from_second_last_day self \<longrightarrow>
            process_article src self article (Some (Parsed data))
              = process_article src' self article (Some (Parsed data)))"
proof -
  have D: "max_date breakdown = D"
    using assms(2,3) by (simp add: max_date_Max)
  have normal: "plan_fetch self article (Some (Parsed data)) = (Fetch (D + 1) T, breakdown)"
    if "D < T" "\<not> from_second_last_day self"
    using that assms(1,2,4) D by (simp add: plan_fetch_def get_next_date_def Let_def)
  have refresh: "plan_fetch self article (Some (Parsed data))
      = (Fetch (D - 1) T, filter (\<lambda>item. date item \<noteq> D) breakdown)"
    if "D < T" "from_second_last_day self"
    using that assms(1,2,4) D by (simp add: plan_fetch_def Let_def)
  have uptodate: "plan_fetch self article (Some (Parsed data)) = (NoFetch, breakdown)"
    if "T < D + 1" "\<not> from_second_last_day self"
    using that assms(1,2,4) D by (simp add: plan_fetch_def get_next_date_def Let_def)
  show ?thesis
    using normal refresh uptodate
    by (auto simp: process_article_answer perform_def)
qed

theorem planner_correct_witness:
  "plan_fetch (fetcher_on (day2 + 1) False) article_B (Some (Parsed history_B))
     = (Fetch (day2 + 1) (day2 + 1), breakdown_B)
   \<and> process_article source_B (fetcher_on (day2 + 1) False) article_B (Some (Parsed history_B))
     = history_B\<lparr>doc_views := Some 18,
         doc_breakdown := Some [\<lparr>date = day1, views = 10, comments = 0, reactions = 0\<rparr>,
                                \<lparr>date = day2, views = 5, comments = 0, reactions = 0\<rparr>,
                                \<lparr>date = day2 + 1, views = 3, comments = 0, reactions = 0\<rparr>]\<rparr>
   \<and> process_article
         (\<lambda>article_id start_date end_date.
            if start_date = day2 + 1 then source_B article_id start_date end_date
            else RequestException)
         (fetcher_on (day2 + 1) False) article_B (Some (Parsed history_B))
     = process_article source_B (fetcher_on (day2 + 1) False) article_B (Some (Parsed history_B))
   \<and> plan_fetch (fetcher_on (day2 + 1) True) article_B (Some (Parsed history_B))
     = (Fetch day1 (day2 + 1), [\<lparr>date = day1, views = 10, comments = 0, reactions = 0\<rparr>])
   \<and> process_article source_B (fetcher_on (day2 + 1) True) article_B (Some (Parsed history_B))
     = history_B\<lparr>doc_views := Some 21,
         doc_breakdown := Some [\<lparr>date = day1, views = 10, comments = 0, reactions = 0\<rparr>,
                                \<lparr>date = day2, views = 8, comments = 0, reactions = 0\<rparr>,
                                \<lparr>date = day2 + 1, views = 3, comments = 0, reactions = 0\<rparr>]\<rparr>
   \<and> plan_fetch (fetcher_on day2 False) article_B (Some (Parsed history_B))
     = (NoFetch, breakdown_B)
   \<and> process_article source_B (fetcher_on day2 False) article_B (Some (Parsed history_B))
     = history_B"
proof -
  let ?r8 = "\<lparr>raw_page_views = Some (Some 8), raw_comments = None, raw_reactions = None\<rparr>"
  let ?r3 = "\<lparr>raw_page_views = Some (Some 3), raw_comments = None, raw_reactions = None\<rparr>"
  let ?other = "\<lambda>article_id start_date end_date.
            if start_date = day2 + 1 then source_B article_id start_date end_date
            else RequestException"
  have b: "doc_breakdown_or_empty history_B = breakdown_B" "breakdown_B \<noteq> []"
    by (simp_all add: doc_breakdown_or_empty_def history_B_def breakdown_B_def)
  have D: "day2 = Max (date ` set breakdown_B)"
    by (simp add: breakdown_B_def day1_def day2_def)
  have before: "day2 - 1 = day1"
    by (simp add: day1_def day2_def)
  have keep: "filter (\<lambda>item. date item \<noteq> day2) breakdown_B
      = [\<lparr>date = day1, views = 10, comments = 0, reactions = 0\<rparr>]"
    by (simp add: breakdown_B_def day1_def day2_def)
  have answer_normal: "source_B (art_id article_B) (day2 + 1) (day2 + 1) = Json [(day2 + 1, ?r3)]"
    by (simp add: source_B_def day2_def)
  have answer_refresh: "source_B (art_id article_B) (day2 - 1) (day2 + 1)
      = Json [(day2, ?r8), (day2 + 1, ?r3)]"
    by (simp add: source_B_def day2_def)
  have same: "?other (art_id article_B) (day2 + 1) (day2 + 1)
      = source_B (art_id article_B) (day2 + 1) (day2 + 1)"
    by simp
  have doc_normal: "article_data article_B
        (final_breakdown breakdown_B (process_analytics_data [(day2 + 1, ?r3)]))
      = history_B\<lparr>doc_views := Some 18,
         doc_breakdown := Some [\<lparr>date = day1, views = 10, comments = 0, reactions = 0\<rparr>,
                                \<lparr>date = day2, views = 5, comments = 0, reactions = 0\<rparr>,
                                \<lparr>date = day2 + 1, views = 3, comments = 0, reactions = 0\<rparr>]\<rparr>"
    by (simp add: article_data_def final_breakdown_def unique_breakdown_def breakdown_B_def
        history_B_def article_B_def article_org_username_def process_analytics_data_def
        to_daily_def get_total_def day1_def day2_def)
  have doc_refresh: "article_data article_B
        (final_breakdown [\<lparr>date = day1, views = 10, comments = 0, reactions = 0\<rparr>]
           (process_analytics_data [(day2, ?r8), (day2 + 1, ?r3)]))
      = history_B\<lparr>doc_views := Some 21,
         doc_breakdown := Some [\<lparr>date = day1, views = 10, comments = 0, reactions = 0\<rparr>,
                                \<lparr>date = day2, views = 8, comments = 0, reactions = 0\<rparr>,
                                \<lparr>date = day2 + 1, views = 3, comments = 0, reactions = 0\<rparr>]\<rparr>"
    by (simp add: article_data_def final_breakdown_def unique_breakdown_def breakdown_B_def
        history_B_def article_B_def article_org_username_def process_analytics_data_def
        to_daily_def get_total_def day1_def day2_def)
  have doc_same: "article_data article_B (final_breakdown breakdown_B []) = history_B"
    by (simp add: article_data_def final_breakdown_def unique_breakdown_def breakdown_B_def
        history_B_def article_B_def article_org_username_def day1_def day2_def)
  have later: "day2 < day2 + 1" "day2 < day2 + 1 \<and> \<not> False"
    by simp_all
  have normal:
    "plan_fetch (fetcher_on (day2 + 1) False) article_B (Some (Parsed history_B))
       = (Fetch (day2 + 1) (day2 + 1), breakdown_B)
     \<and> process_article source_B (fetcher_on (day2 + 1) False) article_B (Some (Parsed history_B))
       = article_data article_B
           (final_breakdown breakdown_B (process_analytics_data [(day2 + 1, ?r3)]))
     \<and> process_article ?other (fetcher_on (day2 + 1) False) article_B (Some (Parsed history_B))
       = process_article source_B (fetcher_on (day2 + 1) False) article_B (Some (Parsed history_B))"
    using planner_correct [OF b D, where T = "day2 + 1" and self = "fetcher_on (day2 + 1) False"
        and article = article_B and src = source_B and fetched = "[(day2 + 1, ?r3)]"
        and src' = source_B]
      planner_correct [OF b D, where T = "day2 + 1" and self = "fetcher_on (day2 + 1) False"
        and article = article_B and src = ?other and fetched = "[(day2 + 1, ?r3)]"
        and src' = source_B]
      answer_normal same
    by (simp add: fetcher_on_def)
  have refresh:
    "plan_fetch (fetcher_on (day2 + 1) True) article_B (Some (Parsed history_B))
       = (Fetch (day2 - 1) (day2 + 1), filter (\<lambda>item. date item \<noteq> day2) breakdown_B)
     \<and> process_article source_B (fetcher_on (day2 + 1) True) article_B (Some (Parsed history_B))
       = article_data article_B
           (final_breakdown (filter (\<lambda>item. date item \<noteq> day2) breakdown_B)
              (process_analytics_data [(day2, ?r8), (day2 + 1, ?r3)]))"
    using planner_correct [OF b D, where T = "day2 + 1" and self = "fetcher_on (day2 + 1) True"
        and article = article_B and src = source_B
        and fetched = "[(day2, ?r8), (day2 + 1, ?r3)]" and src' = source_B]
      answer_refresh
    by (simp add: fetcher_on_def)
  have uptodate:
    "plan_fetch (fetcher_on day2 False) article_B (Some (Parsed history_B)) = (NoFetch, breakdown_B)
     \<and> process_article source_B (fetcher_on day2 False) article_B (Some (Parsed history_B))
       = article_data article_B (final_breakdown breakdown_B [])"
    using planner_correct [OF b D, where T = day2 and self = "fetcher_on day2 False"
        and article = article_B and src = source_B and fetched = "[]" and src' = source_B]
    by (simp add: fetcher_on_def)
  show ?thesis
    using normal refresh uptodate
    by (simp only: before keep doc_normal doc_refresh doc_same simp_thms)
qed

section \<open>The run on article B\<close>

lemma run_returns:
  "fetch_published_articles api self0 = Some (Return (articles, self)) \<Longrightarrow>
     run api src title_case self0 data =
       Some (Return
         \<lparr>articles_files = fold (process_article_file src self) articles (articles_files data),
          account_json = Some (update_account_stats self articles
            (map snd (fold (process_article_file src self) articles (articles_files data)))),
          top_articles_json = Some (create_top_articles title_case
            (fold (process_article_file src self) articles (articles_files data)))\<rparr>)"
  by (simp add: run_def Let_def)

lemma map_of_process_article_file:
  "map_of (process_article_file src self article dir) (file_stem article)
     = Some (Parsed (process_article src self article (map_of dir (file_stem article))))"
  by (simp add: process_article_file_def update_conv')


lemma fetch_pages_listing_B:
  "fetch_pages listing_B 1 [] None = Some (Return ([article_B], Some ''me''))"
  by (subst fetch_pages.simps, simp add: listing_B_def, subst fetch_pages.simps)
    (simp add: listing_B_def article_B_def)

lemma fetch_published_articles_listing_B:
  "fetch_published_articles listing_B (fetcher_on day2 refresh)
     = Some (Return ([article_B], (fetcher_on day2 refresh)\<lparr>username := Some ''me''\<rparr>))"
  by (simp add: fetch_published_articles_def fetch_pages_listing_B fetcher_on_def
      del: One_nat_def)

section \<open>Normalisation on every run\<close>

lemma doc_breakdown_article_data [simp]:
  "doc_breakdown_or_empty (article_data article final) = final"
  by (simp add: article_data_def doc_breakdown_or_empty_def)

text \<open>
  Claim C10. Whatever the stored file, the mode and the answer of the analytics source,
  the document written to the article's file has a breakdown with no date twice, in
  ascending order of date, and totals that are the sums of its breakdown's fields; the
  file holds that document after the step. When no data comes in (a failed or empty
  answer, or no request), the breakdown written is the merge of the kept stored entries
  alone, with the same dates and no entry that was not stored.
\<close>

theorem implicit_normalization:
  "doc_breakdown (process_article src self article file)
     = Some (doc_breakdown_or_empty (process_article src self article file))
   \<and> sorted (map date (doc_breakdown_or_empty (process_article src self article file)))
   \<and> distinct (map date (doc_breakdown_or_empty (process_article src self article file)))
   \<and> doc_views (process_article src self article file)
       = Some (sum_list (map views (doc_breakdown_or_empty (process_article src self article file))))
   \<and> doc_comments (process_article src self article file)
       = Some (sum_list (map comments (doc_breakdown_or_empty (process_article src self article file))))
   \<and> doc_reactions (process_article src self article file)
       = Some (sum_list (map reactions (doc_breakdown_or_empty (process_article src self article file))))
   \<and> map_of (process_article_file src self article dir) (file_stem article)
       = Some (Parsed (process_article src self article (map_of dir (file_stem article))))
   \<and> (perform src (art_id article) (fst (plan_fetch self article file)) = [] \<longrightarrow>
        doc_breakdown_or_empty (process_article src self article file)
          = final_breakdown (snd (plan_fetch self article file)) []
        \<and> date ` set (doc_breakdown_or_empty (process_article src self article file))
          = date ` set (snd (plan_fetch self article file))
        \<and> set (doc_breakdown_or_empty (process_article src self article file))
          \<subseteq> set (snd (plan_fetch self article file)))"
proof -
  have sub: "set (final_breakdown xs []) \<subseteq> set xs" for xs
    by (auto simp: set_final_breakdown ran_def dest: last_entry_in_set)
  have dates: "date ` set (final_breakdown xs []) = date ` set xs" for xs
    using dates_final_breakdown [of xs "[]"]
    by (metis append_Nil2 finite_imageI finite_set list.set_map set_sorted_list_of_set)
  show ?thesis
    unfolding process_article_unfold doc_breakdown_article_data
    using sub dates
    by (simp add: sorted_final_breakdown distinct_final_breakdown map_of_process_article_file
        process_article_unfold)
      (simp add: article_data_def)
qed

theorem implicit_normalization_witness:
  "perform failing_source (art_id article_B)
       (fst (plan_fetch (fetcher_on (day2 + 1) False) article_B (Some (Parsed history_B)))) = []
   \<and> doc_breakdown_or_empty
       (process_article failing_source (fetcher_on (day2 + 1) False) article_B (Some (Parsed history_B)))
     = final_breakdown
         (snd (plan_fetch (fetcher_on (day2 + 1) False) article_B (Some (Parsed history_B)))) []
   \<and> sorted (map date (doc_breakdown_or_empty
       (process_article failing_source (fetcher_on (day2 + 1) False) article_B (Some (Parsed history_B)))))"
proof -
  have "perform failing_source (art_id article_B)
       (fst (plan_fetch (fetcher_on (day2 + 1) False) article_B (Some (Parsed history_B)))) = []"
    by (simp add: perform_def fetch_article_analytics_def failing_source_def split: request.splits)
  then show ?thesis
    using implicit_normalization [of failing_source "fetcher_on (day2 + 1) False" article_B
        "Some (Parsed history_B)" "[]"]
    by blast
qed

section \<open>Fetch failure\<close>

text \<open>
  A breakdown that is already in ascending order with no date twice is what the merge
  returns when nothing is merged into it. So a failed request in normal mode writes the
  stored breakdown back; in refresh mode the entries of the last date were dropped before
  the request and do not come back.
\<close>

lemma final_breakdown_fixed:
  assumes "sorted (map date b)" and "distinct (map date b)"
  shows "final_breakdown b [] = b"
proof -
  have "sorted_list_of_set (set (map date b)) = map date b"
    using assms by (rule sorted_list_of_set.idem_if_sorted_distinct)
  then have "final_breakdown b [] = map (\<lambda>d. the (last_entry b d)) (map date b)"
    by (simp add: final_breakdown_emit emit_def dom_last_entry)
  also have "\<dots> = map (\<lambda>x. the (last_entry b (date x))) b"
    by (simp add: comp_def)
  also have "\<dots> = b"
    using assms(2) by (simp add: map_idI last_entry_distinct)
  finally show ?thesis .
qed

lemma normal_failure_keeps_history:
  assumes "\<not> from_second_last_day self"
    and "perform src (art_id article) (fst (plan_fetch self article (Some (Parsed data)))) = []"
    and "sorted (map date (doc_breakdown_or_empty data))"
    and "distinct (map date (doc_breakdown_or_empty data))"
  shows "doc_breakdown_or_empty (process_article src self article (Some (Parsed data)))
     = doc_breakdown_or_empty data"
proof -
  have "snd (plan_fetch self article (Some (Parsed data))) = doc_breakdown_or_empty data"
    using assms(1) by (simp add: plan_fetch_def Let_def)
  then show ?thesis
    using assms(2-4) by (simp add: process_article_unfold final_breakdown_fixed)
qed

lemma refresh_failure_drops_last_date:
  assumes "from_second_last_day self"
    and "perform src (art_id article) (fst (plan_fetch self article (Some (Parsed data)))) = []"
    and "doc_breakdown_or_empty data \<noteq> []"
  shows "Max (date ` set (doc_breakdown_or_empty data))
     \<notin> date ` set (doc_breakdown_or_empty (process_article src self article (Some (Parsed data))))"
proof -
  let ?b = "doc_breakdown_or_empty data"
  have kept: "snd (plan_fetch self article (Some (Parsed data)))
      = filter (\<lambda>item. date item \<noteq> Max (date ` set ?b)) ?b"
    using assms(1,3) by (simp add: plan_fetch_def Let_def max_date_Max)
  have "date ` set (final_breakdown xs []) = date ` set xs" for xs
    using dates_final_breakdown [of xs "[]"]
    by (metis append_Nil2 finite_imageI finite_set list.set_map set_sorted_list_of_set)
  then show ?thesis
    using assms(2) by (auto simp: process_article_unfold kept)
qed

text \<open>
  Claim C5, at the input where the code departs from it. Article B has the stored
  breakdown of 2024-01-01 (10 views) and 2024-01-02 (5 views); today is 2024-01-02 and the
  analytics request fails. In refresh mode the document written has lost the entry of
  2024-01-02 and counts 10 views. In normal mode, one day later, the same failure leaves
  the stored document as it was.
\<close>

theorem refresh_fetch_failure_loses_last_day:
  "process_article failing_source (fetcher_on day2 True) article_B (Some (Parsed history_B))
     = history_B\<lparr>doc_views := Some 10,
         doc_breakdown := Some [\<lparr>date = day1, views = 10, comments = 0, reactions = 0\<rparr>]\<rparr>
   \<and> process_article failing_source (fetcher_on (day2 + 1) False) article_B (Some (Parsed history_B))
     = history_B"
  by (simp add: process_article_def plan_fetch_def perform_def fetch_article_analytics_def
      failing_source_def fetcher_on_def history_B_def breakdown_B_def article_B_def
      doc_breakdown_or_empty_def max_date_def get_next_date_def article_data_def
      article_org_username_def final_breakdown_def unique_breakdown_def day1_def day2_def Let_def)

section \<open>Fatal and recoverable errors\<close>





section \<open>Aggregation\<close>

lemma fold_scan_file:
  "fold scan_file files (tv, tc, tr, bs) =
     (tv + sum_list (map (stored_total doc_views) files),
      tc + sum_list (map (stored_total doc_comments) files),
      tr + sum_list (map (stored_total doc_reactions) files),
      bs @ concat (map stored_breakdown files))"
proof (induction files arbitrary: tv tc tr bs)
  case Nil
  show ?case by simp
next
  case (Cons f files)
  show ?case by (cases f) (simp_all add: Cons.IH)
qed

lemma update_account_stats_unfold:
  "update_account_stats self articles files =
     \<lparr>acc_articles = length articles,
      acc_views = sum_list (map (stored_total doc_views) files),
      acc_comments = sum_list (map (stored_total doc_comments) files),
      acc_reactions = sum_list (map (stored_total doc_reactions) files),
      acc_username = username self,
      acc_breakdown = combined_breakdown (concat (map stored_breakdown files))\<rparr>"
  by (simp add: update_account_stats_def fold_scan_file)

lemma date_aggregates_snoc:
  "date_aggregates (xs @ [x]) = add_item x (date_aggregates xs)"
  by (simp add: date_aggregates_def)

lemma distinct_add_item:
  "distinct (map fst al) \<Longrightarrow> distinct (map fst (add_item x al))"
  by (simp add: add_item_def Let_def distinct_map_entry distinct_update)

lemma distinct_date_aggregates: "distinct (map fst (date_aggregates xs))"
proof (induction xs rule: rev_induct)
  case Nil
  show ?case by (simp add: date_aggregates_def)
next
  case (snoc x xs)
  then show ?case by (simp add: date_aggregates_snoc distinct_add_item)
qed

lemma day_total_snoc:
  "day_total field (xs @ [x]) d = day_total field xs d + (if date x = d then field x else 0)"
  by (simp add: day_total_def)

lemma day_total_absent: "d \<notin> date ` set xs \<Longrightarrow> day_total field xs d = 0"
proof -
  assume "d \<notin> date ` set xs"
  then have "filter (\<lambda>item. date item = d) xs = []"
    by (auto simp: filter_empty_conv)
  then show ?thesis by (simp add: day_total_def)
qed

lemma map_of_add_item:
  "map_of (add_item x al) d =
     (if d = date x
      then Some (case map_of al d of
             None \<Rightarrow> \<lparr>date = d, views = views x, comments = comments x, reactions = reactions x\<rparr>
           | Some a \<Rightarrow> a\<lparr>views := views a + views x, comments := comments a + comments x,
                          reactions := reactions a + reactions x\<rparr>)
      else map_of al d)"
  by (simp add: add_item_def Let_def map_of_map_entry update_conv' split: option.splits)

lemma map_of_date_aggregates:
  "map_of (date_aggregates xs) d = (if d \<in> date ` set xs then Some (agg_entry xs d) else None)"
proof (induction xs rule: rev_induct)
  case Nil
  show ?case by (simp add: date_aggregates_def)
next
  case (snoc x xs)
  show ?case
  proof (cases "d = date x")
    case False
    then show ?thesis
      by (simp add: date_aggregates_snoc map_of_add_item snoc.IH agg_entry_def day_total_snoc)
  next
    case True
    have ih: "map_of (date_aggregates xs) (date x)
        = (if date x \<in> date ` set xs then Some (agg_entry xs (date x)) else None)"
      using snoc.IH True by simp
    show ?thesis
    proof (cases "date x \<in> date ` set xs")
      case True
      with \<open>d = date x\<close> show ?thesis
        by (simp add: date_aggregates_snoc map_of_add_item ih agg_entry_def day_total_snoc)
    next
      case False
      with \<open>d = date x\<close> show ?thesis
        by (simp add: date_aggregates_snoc map_of_add_item ih agg_entry_def day_total_snoc
            day_total_absent)
    qed
  qed
qed

lemma dom_date_aggregates: "dom (map_of (date_aggregates xs)) = date ` set xs"
  by (auto simp: dom_def map_of_date_aggregates)

lemma date_aggregates_keyed:
  assumes "(k, v) \<in> set (date_aggregates xs)"
  shows "date v = k"
proof -
  have "map_of (date_aggregates xs) k = Some v"
    using assms distinct_date_aggregates [of xs] by simp
  then show ?thesis
    by (auto simp: map_of_date_aggregates agg_entry_def split: if_splits)
qed

lemma combined_breakdown_entries:
  "combined_breakdown xs = map (agg_entry xs) (sorted_list_of_set (date ` set xs))"
proof -
  have "combined_breakdown xs = emit (map_of (date_aggregates xs))"
    unfolding combined_breakdown_def
    by (rule sort_values_emit) (simp_all add: distinct_date_aggregates date_aggregates_keyed)
  also have "\<dots> = map (agg_entry xs) (sorted_list_of_set (date ` set xs))"
    by (simp add: emit_def dom_date_aggregates map_of_date_aggregates)
  finally show ?thesis .
qed

lemma day_total_concat:
  "day_total field (concat xss) d = sum_list (map (\<lambda>xs. day_total field xs d) xss)"
  by (induction xss) (simp_all add: day_total_def)

lemma day_total_Cons:
  "day_total field (x # xs) d = (if date x = d then field x else 0) + day_total field xs d"
  by (simp add: day_total_def)

lemma sum_day_total_set:
  "finite A \<Longrightarrow> date ` set xs \<subseteq> A \<Longrightarrow>
     (\<Sum>d\<in>A. day_total field xs d) = sum_list (map field xs)"
proof (induction xs)
  case Nil
  then show ?case by (simp add: day_total_def)
next
  case (Cons x xs)
  then have "date x \<in> A" and "date ` set xs \<subseteq> A"
    by auto
  then show ?case
    using Cons.IH Cons.prems(1) by (simp add: day_total_Cons sum.distrib)
qed

lemma sum_day_total:
  "sum_list (map (\<lambda>d. day_total field xs d) (sorted_list_of_set (date ` set xs)))
     = sum_list (map field xs)"
proof -
  have "sum_list (map (\<lambda>d. day_total field xs d) (sorted_list_of_set (date ` set xs)))
      = (\<Sum>d\<in>date ` set xs. day_total field xs d)"
    by (simp add: sum_list_distinct_conv_sum_set)
  then show ?thesis
    by (simp add: sum_day_total_set)
qed

lemma sum_combined_breakdown:
  "sum_list (map views (combined_breakdown xs)) = sum_list (map views xs)"
  "sum_list (map comments (combined_breakdown xs)) = sum_list (map comments xs)"
  "sum_list (map reactions (combined_breakdown xs)) = sum_list (map reactions xs)"
  using sum_day_total [of views xs] sum_day_total [of comments xs] sum_day_total [of reactions xs]
  by (simp_all add: combined_breakdown_entries comp_def agg_entry_def)

lemma sum_list_concat_map:
  "sum_list (map field (concat xss)) = sum_list (map (\<lambda>xs. sum_list (map field xs)) xss)"
  by (induction xss) simp_all

lemma sum_list_mset_cong:
  fixes g :: "'a \<Rightarrow> 'b :: comm_monoid_add"
  shows "mset xs = mset ys \<Longrightarrow> sum_list (map g xs) = sum_list (map g ys)"
  by (metis mset_map sum_mset_sum_list)

lemma account_consistent_update:
  assumes "list_all stored_consistent files"
  shows "account_consistent (update_account_stats self articles files)"
proof -
  have eq: "sum_list (map (stored_total total) files)
      = sum_list (map field (concat (map stored_breakdown files)))"
    if "\<And>f. f \<in> set files \<Longrightarrow> stored_total total f = sum_list (map field (stored_breakdown f))"
    for total field
    using that by (simp add: sum_list_concat_map comp_def cong: map_cong)
  have "f \<in> set files \<Longrightarrow> stored_consistent f" for f
    using assms by (simp add: list_all_iff)
  then show ?thesis
    by (simp add: account_consistent_def update_account_stats_unfold sum_combined_breakdown
        eq stored_consistent_def)
qed

lemma stored_consistent_process_article:
  "stored_consistent (Parsed (process_article src self article file))"
  by (simp add: stored_consistent_def process_article_unfold get0_def)
    (simp add: article_data_def)

lemma list_all_update:
  "P v \<Longrightarrow> list_all P (map snd al) \<Longrightarrow> list_all P (map snd (AList.update k v al))"
  by (induction al) auto

lemma consistent_after_articles:
  "list_all stored_consistent (map snd dir) \<Longrightarrow>
     list_all stored_consistent (map snd (fold (process_article_file src self) articles dir))"
proof (induction articles arbitrary: dir)
  case Nil
  then show ?case by simp
next
  case (Cons a articles)
  have "list_all stored_consistent (map snd (process_article_file src self a dir))"
    unfolding process_article_file_def
    using Cons.prems by (intro list_all_update stored_consistent_process_article)
  then show ?case
    by (simp add: Cons.IH)
qed

section \<open>Totals invariant\<close>

text \<open>
  Claim C4. The document that \<^verbatim>\<open>process_article\<close> writes has views, comments and
  reactions equal to the sums of these fields over its breakdown. If the totals of every
  scanned article file are the sums over the file's own breakdown, the account document
  has totals equal to the sums over its aggregated breakdown; and a run that starts from
  such files writes such an account document and leaves such files.
\<close>

theorem totals_invariant:
  "doc_views (process_article src self article file)
     = Some (sum_list (map views (doc_breakdown_or_empty (process_article src self article file))))
   \<and> doc_comments (process_article src self article file)
     = Some (sum_list (map comments (doc_breakdown_or_empty (process_article src self article file))))
   \<and> doc_reactions (process_article src self article file)
     = Some (sum_list (map reactions (doc_breakdown_or_empty (process_article src self article file))))
   \<and> (list_all stored_consistent files \<longrightarrow>
        account_consistent (update_account_stats self articles files))
   \<and> (list_all stored_consistent (map snd (articles_files data))
        \<and> run api src title_case self0 data = Some (Return result) \<longrightarrow>
        (\<exists>account. account_json result = Some account \<and> account_consistent account)
        \<and> list_all stored_consistent (map snd (articles_files result)))"
proof -
  have doc: "doc_views (process_article src self article file)
     = Some (sum_list (map views (doc_breakdown_or_empty (process_article src self article file))))
   \<and> doc_comments (process_article src self article file)
     = Some (sum_list (map comments (doc_breakdown_or_empty (process_article src self article file))))
   \<and> doc_reactions (process_article src self article file)
     = Some (sum_list (map reactions (doc_breakdown_or_empty (process_article src self article file))))"
    by (simp add: process_article_unfold) (simp add: article_data_def)
  have whole: "(\<exists>account. account_json result = Some account \<and> account_consistent account)
        \<and> list_all stored_consistent (map snd (articles_files result))"
    if start: "list_all stored_consistent (map snd (articles_files data))"
      and returns: "run api src title_case self0 data = Some (Return result)"
  proof -
    from returns obtain listed self' where
      listing: "fetch_published_articles api self0 = Some (Return (listed, self'))"
      by (auto simp: run_def split: option.splits outcome.splits)
    let ?dir = "fold (process_article_file src self') listed (articles_files data)"
    have files: "list_all stored_consistent (map snd ?dir)"
      using start by (rule consistent_after_articles)
    have "result = \<lparr>articles_files = ?dir,
          account_json = Some (update_account_stats self' listed (map snd ?dir)),
          top_articles_json = Some (create_top_articles title_case ?dir)\<rparr>"
      using returns run_returns [OF listing, of src title_case data] by simp
    then show ?thesis
      using files account_consistent_update [OF files, of self' listed] by simp
  qed
  from doc whole account_consistent_update show ?thesis
    by blast
qed

theorem totals_invariant_witness:
  "list_all stored_consistent [Parsed history_B, Invalid]
   \<and> account_consistent (update_account_stats (fetcher_on day2 False) [article_B]
        [Parsed history_B, Invalid])
   \<and> list_all stored_consistent (map snd (articles_files data_dir_B))
   \<and> (\<exists>result. run listing_B failing_source id (fetcher_on day2 False) data_dir_B
         = Some (Return result)
        \<and> (\<exists>account. account_json result = Some account \<and> account_consistent account))"
proof -
  have files: "list_all stored_consistent [Parsed history_B, Invalid]"
    by (simp add: stored_consistent_def history_B_def breakdown_B_def get0_def
        doc_breakdown_or_empty_def)
  have start: "list_all stored_consistent (map snd (articles_files data_dir_B))"
    by (simp add: data_dir_B_def articles_dir_B_def stored_consistent_def)
  have listed: "fetch_published_articles listing_B (fetcher_on day2 False)
     = Some (Return ([article_B], (fetcher_on day2 False)\<lparr>username := Some ''me''\<rparr>))"
    by (rule fetch_published_articles_listing_B)
  obtain result where returns:
    "run listing_B failing_source id (fetcher_on day2 False) data_dir_B = Some (Return result)"
    using run_returns [OF listed] by blast
  have "account_consistent (update_account_stats (fetcher_on day2 False) [article_B]
        [Parsed history_B, Invalid])"
    using totals_invariant [where files = "[Parsed history_B, Invalid]"] files by blast
  moreover have "\<exists>account. account_json result = Some account \<and> account_consistent account"
    using totals_invariant [where data = data_dir_B and api = listing_B and src = failing_source
        and title_case = id and ?self0.0 = "fetcher_on day2 False" and result = result]
      start returns
    by blast
  ultimately show ?thesis
    using files start returns by blast
qed

section \<open>Aggregation commutativity\<close>

text \<open>
  Claim C7. The breakdown of the account document has one entry for each date that
  occurs in a scanned file, in ascending order, and each of its fields is the sum, over
  the scanned files, of that field over the file's entries of that date (a skipped file
  adds nothing). Two enumerations of the same files give the same account document.
\<close>

theorem aggregation_commutative:
  "acc_breakdown (update_account_stats self articles files)
     = map (\<lambda>d. \<lparr>date = d,
                   views = (\<Sum>f\<leftarrow>files. day_total views (stored_breakdown f) d),
                   comments = (\<Sum>f\<leftarrow>files. day_total comments (stored_breakdown f) d),
                   reactions = (\<Sum>f\<leftarrow>files. day_total reactions (stored_breakdown f) d)\<rparr>)
         (sorted_list_of_set (\<Union>f\<in>set files. date ` set (stored_breakdown f)))
   \<and> (mset files = mset files' \<longrightarrow>
        update_account_stats self articles files = update_account_stats self articles files')"
proof -
  have entries: "acc_breakdown (update_account_stats self articles fs)
     = map (\<lambda>d. \<lparr>date = d,
                   views = (\<Sum>f\<leftarrow>fs. day_total views (stored_breakdown f) d),
                   comments = (\<Sum>f\<leftarrow>fs. day_total comments (stored_breakdown f) d),
                   reactions = (\<Sum>f\<leftarrow>fs. day_total reactions (stored_breakdown f) d)\<rparr>)
         (sorted_list_of_set (\<Union>f\<in>set fs. date ` set (stored_breakdown f)))" for fs
  proof -
    have "date ` set (concat (map stored_breakdown fs))
        = (\<Union>f\<in>set fs. date ` set (stored_breakdown f))"
      by auto
    then show ?thesis
      by (simp add: update_account_stats_unfold combined_breakdown_entries agg_entry_def
          day_total_concat comp_def)
  qed
  have "update_account_stats self articles files = update_account_stats self articles files'"
    if same: "mset files = mset files'"
  proof -
    have sums: "(\<Sum>f\<leftarrow>files. g f) = (\<Sum>f\<leftarrow>files'. g f)" for g :: "stored \<Rightarrow> int"
      using same by (rule sum_list_mset_cong)
    have sets: "set files = set files'"
      using same by (rule mset_eq_setD)
    have "acc_breakdown (update_account_stats self articles files)
        = acc_breakdown (update_account_stats self articles files')"
      by (simp only: entries sums sets)
    then show ?thesis
      by (simp add: update_account_stats_unfold sums)
  qed
  with entries show ?thesis
    by blast
qed

theorem aggregation_commutative_witness:
  "mset [Parsed history_B, Invalid] = mset [Invalid, Parsed history_B]
   \<and> update_account_stats (fetcher_on day2 False) [article_B] [Parsed history_B, Invalid]
     = update_account_stats (fetcher_on day2 False) [article_B] [Invalid, Parsed history_B]"
proof -
  have "mset [Parsed history_B, Invalid] = mset [Invalid, Parsed history_B]"
    by (simp add: add_mset_commute)
  then show ?thesis
    using aggregation_commutative [where files = "[Parsed history_B, Invalid]"
        and files' = "[Invalid, Parsed history_B]"]
    by blast
qed

section \<open>Rankings\<close>

lemma mset_article_stats:
  "mset dir = mset dir' \<Longrightarrow>
     mset (article_stats title_case dir) = mset (article_stats title_case dir')"
  unfolding article_stats_def mset_concat
  using sum_list_mset_cong [of "map (stat_of_file title_case) dir"
      "map (stat_of_file title_case) dir'" mset]
  by simp

lemma sort_key_permuted:
  assumes "mset xs = mset ys" and "inj_on f (set xs)"
  shows "sort_key f xs = sort_key f ys"
  using assms by (intro sort_key_inj_key_eq) simp_all

lemma ranked_order:
  fixes metric :: "'a \<Rightarrow> int" and slug :: "'a \<Rightarrow> string"
  shows "sorted_wrt (\<lambda>a b. metric b \<le> metric a) (sort_key (\<lambda>x. (- metric x, slug x)) xs)"
    and "sorted_wrt (\<lambda>a b. metric a = metric b \<longrightarrow> slug a \<le> slug b)
           (sort_key (\<lambda>x. (- metric x, slug x)) xs)"
proof -
  have "sorted (map (\<lambda>x. (- metric x, slug x)) (sort_key (\<lambda>x. (- metric x, slug x)) xs))"
    by (rule sorted_sort_key)
  then have key: "sorted_wrt (\<lambda>a b. (- metric a, slug a) \<le> (- metric b, slug b))
      (sort_key (\<lambda>x. (- metric x, slug x)) xs)"
    by (simp only: sorted_map)
  show "sorted_wrt (\<lambda>a b. metric b \<le> metric a) (sort_key (\<lambda>x. (- metric x, slug x)) xs)"
    by (rule sorted_wrt_mono_rel [OF _ key]) auto
  show "sorted_wrt (\<lambda>a b. metric a = metric b \<longrightarrow> slug a \<le> slug b)
      (sort_key (\<lambda>x. (- metric x, slug x)) xs)"
    by (rule sorted_wrt_mono_rel [OF _ key]) auto
qed

text \<open>
  Claim C6, as the claim states it, fails: two article files of one slug with equal views
  and equal reactions come out in the order in which the files are enumerated.
\<close>

theorem ranking_enumeration_counterexample:
  "mset same_slug_dir = mset (rev same_slug_dir)
   \<and> by_views (create_top_articles id same_slug_dir)
       \<noteq> by_views (create_top_articles id (rev same_slug_dir))
   \<and> by_reaction (create_top_articles id same_slug_dir)
       \<noteq> by_reaction (create_top_articles id (rev same_slug_dir))"
  by (simp add: same_slug_dir_def create_top_articles_def article_stats_def slug_of_stem_def
      to_views_entry_def to_reaction_entry_def get0_def)

text \<open>
  Claim C6, amended. Each of the two rankings is in descending order of its metric, and
  of two entries of equal metric the one placed first has the smaller or equal slug. Two
  enumerations of the same article files give the same rankings when no two of the
  records have the same slug.
\<close>

theorem ranking_stability:
  "sorted_wrt (\<lambda>a b. ve_views b \<le> ve_views a) (by_views (create_top_articles title_case dir))
   \<and> sorted_wrt (\<lambda>a b. ve_views a = ve_views b \<longrightarrow> ve_slug a \<le> ve_slug b)
       (by_views (create_top_articles title_case dir))
   \<and> sorted_wrt (\<lambda>a b. re_reactions b \<le> re_reactions a)
       (by_reaction (create_top_articles title_case dir))
   \<and> sorted_wrt (\<lambda>a b. re_reactions a = re_reactions b \<longrightarrow> re_slug a \<le> re_slug b)
       (by_reaction (create_top_articles title_case dir))
   \<and> (mset dir = mset dir' \<and> distinct (map st_slug (article_stats title_case dir)) \<longrightarrow>
        create_top_articles title_case dir = create_top_articles title_case dir')"
proof -
  have same: "create_top_articles title_case dir = create_top_articles title_case dir'"
    if perm: "mset dir = mset dir'"
      and slugs: "distinct (map st_slug (article_stats title_case dir))"
  proof -
    let ?stats = "article_stats title_case dir" and ?stats' = "article_stats title_case dir'"
    have stats: "mset ?stats = mset ?stats'"
      using perm by (rule mset_article_stats)
    have inj: "inj_on st_slug (set ?stats)"
      using slugs by (simp add: distinct_map)
    have "inj_on (\<lambda>x. (- ve_views x, ve_slug x)) (set (map to_views_entry ?stats))"
      using inj by (auto simp: inj_on_def to_views_entry_def)
    moreover have "mset (map to_views_entry ?stats) = mset (map to_views_entry ?stats')"
      using stats by simp
    ultimately have v: "sort_key (\<lambda>x. (- ve_views x, ve_slug x)) (map to_views_entry ?stats)
        = sort_key (\<lambda>x. (- ve_views x, ve_slug x)) (map to_views_entry ?stats')"
      by (intro sort_key_permuted)
    have "inj_on (\<lambda>x. (- re_reactions x, re_slug x)) (set (map to_reaction_entry ?stats))"
      using inj by (auto simp: inj_on_def to_reaction_entry_def)
    moreover have "mset (map to_reaction_entry ?stats) = mset (map to_reaction_entry ?stats')"
      using stats by simp
    ultimately have r: "sort_key (\<lambda>x. (- re_reactions x, re_slug x)) (map to_reaction_entry ?stats)
        = sort_key (\<lambda>x. (- re_reactions x, re_slug x)) (map to_reaction_entry ?stats')"
      by (intro sort_key_permuted)
    show ?thesis
      by (simp only: create_top_articles_def v r)
  qed
  show ?thesis
    using same by (simp add: create_top_articles_def ranked_order)
qed

theorem ranking_stability_witness:
  "mset two_slug_dir = mset (rev two_slug_dir)
   \<and> distinct (map st_slug (article_stats id two_slug_dir))
   \<and> create_top_articles id two_slug_dir = create_top_articles id (rev two_slug_dir)"
proof -
  have perm: "mset two_slug_dir = mset (rev two_slug_dir)"
    by simp
  have slugs: "distinct (map st_slug (article_stats id two_slug_dir))"
    by (simp add: two_slug_dir_def article_stats_def slug_of_stem_def)
  show ?thesis
    using ranking_stability [where dir = two_slug_dir and dir' = "rev two_slug_dir"
        and title_case = id] perm slugs
    by blast
qed

section \<open>Files that cannot be read\<close>






text \<open>On a directory of files as read, the run on disk is \<^verbatim>\<open>run\<close>.\<close>

lemma read_dir_on_disk: "read_dir (on_disk dir) = Inr dir"
  by (induction dir) (auto simp: on_disk_def)

lemma map_of_on_disk: "map_of (on_disk dir) k = map_option Readable (map_of dir k)"
  by (induction dir) (auto simp: on_disk_def)

lemma on_disk_update:
  "on_disk (AList.update k v dir) = AList.update k (Readable v) (on_disk dir)"
  by (induction dir) (auto simp: on_disk_def)

lemma process_article_on_disk_as_read:
  "process_article_on_disk src self article (on_disk dir)
     = Inr (on_disk (process_article_file src self article dir))"
  by (cases "map_of dir (file_stem article)")
    (simp_all add: process_article_on_disk_def process_article_file_def read_existing_def
      map_of_on_disk on_disk_update)

lemma process_articles_on_disk_as_read:
  "process_articles_on_disk src self articles (on_disk dir)
     = Inr (on_disk (fold (process_article_file src self) articles dir))"
  by (induction articles arbitrary: dir) (simp_all add: process_article_on_disk_as_read)

lemma run_on_disk_as_read:
  "run_on_disk api src title_case self0
       \<lparr>disk_articles = on_disk (articles_files data), disk_account = account,
        disk_top_articles = ranking\<rparr>
     = map_option
         (\<lambda>outcome. case outcome of
            Exit code \<Rightarrow> Exit code
          | Return result \<Rightarrow>
              Return \<lparr>disk_articles = on_disk (articles_files result),
                      disk_account = account_json result,
                      disk_top_articles = top_articles_json result\<rparr>)
         (run api src title_case self0 data)"
  by (simp add: run_on_disk_def run_def process_articles_on_disk_as_read read_dir_on_disk Let_def
      split: option.splits outcome.splits prod.splits)




end
